theory Spec2Isabelle
  imports Main
begin

section \<open>The slot finder of the Wellness app (CalendarService.ts)\<close>

text \<open>
  Instants are JavaScript \<^verbatim>\<open>Date\<close> values, modelled by their \<^verbatim>\<open>getTime()\<close>: whole
  milliseconds since the epoch, as \<^typ>\<open>int\<close>. Comparing two dates with \<^verbatim>\<open><\<close>, \<^verbatim>\<open>>\<close> or
  \<^verbatim>\<open>>=\<close> compares these numbers. The ISO strings of a \<^verbatim>\<open>BusyEvent\<close> are taken as
  already parsed (\<^verbatim>\<open>new Date(event.startDate)\<close>), and the numbers of a configuration
  are whole numbers.

  Two things are read from the runtime and not passed by the caller: the wall clock
  (\<^verbatim>\<open>new Date()\<close>) and the local time zone that \<^verbatim>\<open>setHours\<close>, \<^verbatim>\<open>getDate\<close> and the other
  local-time accessors use. The zone is modelled as a fixed offset from UTC in
  milliseconds (local time = UTC + offset), that is a zone without a daylight-saving
  change in the scanned days.
\<close>

subsection \<open>Data\<close>

record runtime =
  clock :: int
  tzOffset :: int

text \<open>\<^verbatim>\<open>BusyEvent\<close>: only the two fields the slot finder reads.\<close>

record BusyEvent =
  ev_startDate :: int
  ev_endDate :: int

datatype slotStatus = available | added

record SuggestedSlot =
  slot_id :: string
  slot_startDate :: int
  slot_endDate :: int
  durationMinutes :: int
  status :: slotStatus

record FreeSlotConfig =
  days :: int
  minMinutes :: int
  maxMinutes :: int
  dayStartHour :: int
  dayEndHour :: int

subsection \<open>Date utility functions\<close>

text \<open>\<^verbatim>\<open>copy.setHours(0, 0, 0, 0)\<close>: local midnight of the local day of \<open>date\<close>.\<close>

definition startOfDay :: "int \<Rightarrow> int \<Rightarrow> int" where
  "startOfDay tz date = ((date + tz) div 86400000) * 86400000 - tz"

text \<open>\<^verbatim>\<open>copy.setDate(copy.getDate() + days)\<close>: the same local time, \<open>n\<close> days later.\<close>

definition addDays :: "int \<Rightarrow> int \<Rightarrow> int" where
  "addDays date n = date + n * 86400000"

text \<open>\<^verbatim>\<open>copy.setHours(hour, 0, 0, 0)\<close>; an hour outside 0..23 rolls over into another day.\<close>

definition setHour :: "int \<Rightarrow> int \<Rightarrow> int \<Rightarrow> int" where
  "setHour tz date hour = startOfDay tz date + hour * 3600000"

text \<open>
  \<^verbatim>\<open>Math.max(0, Math.round((end - start) / 60000))\<close>. \<^verbatim>\<open>Math.round\<close> rounds a half
  towards plus infinity, so \<^verbatim>\<open>Math.round(x)\<close> is the floor of \<open>x + 1/2\<close>.
\<close>

definition diffMinutes :: "int \<Rightarrow> int \<Rightarrow> int" where
  "diffMinutes start end = max 0 ((end - start + 30000) div 60000)"

text \<open>Same year, month and day of the month in local time: the same local day.\<close>

definition isSameDay :: "int \<Rightarrow> int \<Rightarrow> int \<Rightarrow> bool" where
  "isSameDay tz val reference \<longleftrightarrow>
     (val + tz) div 86400000 = (reference + tz) div 86400000"

definition rangesOverlap :: "int \<Rightarrow> int \<Rightarrow> int \<Rightarrow> int \<Rightarrow> bool" where
  "rangesOverlap startA endA startB endB \<longleftrightarrow> startA < endB \<and> startB < endA"

subsection \<open>Slots\<close>

text \<open>Decimal rendering of a number inside a template literal.\<close>

function showDigits :: "int \<Rightarrow> string" where
  "showDigits n =
     (if n < 10 then [char_of (48 + n)]
      else showDigits (n div 10) @ [char_of (48 + n mod 10)])"
  by pat_completeness auto
termination
  by (relation "measure nat") auto

definition showInt :: "int \<Rightarrow> string" where
  "showInt i = (if i < 0 then CHR ''-'' # showDigits (- i) else showDigits i)"

definition buildSlot :: "int \<Rightarrow> int \<Rightarrow> SuggestedSlot" where
  "buildSlot anchor duration =
     \<lparr> slot_id = showInt anchor @ ''-'' @ showInt duration,
       slot_startDate = anchor,
       slot_endDate = anchor + duration * 60 * 1000,
       durationMinutes = duration,
       status = available \<rparr>"

text \<open>\<^verbatim>\<open>null\<close> is \<open>None\<close>.\<close>

definition chooseDuration :: "int \<Rightarrow> FreeSlotConfig \<Rightarrow> int option" where
  "chooseDuration gapMinutes config =
     (if gapMinutes < minMinutes config then None
      else if gapMinutes \<ge> maxMinutes config then Some (maxMinutes config)
      else Some (minMinutes config))"

subsection \<open>hasConflict\<close>

definition hasConflict :: "BusyEvent list \<Rightarrow> int \<Rightarrow> int \<Rightarrow> bool" where
  "hasConflict busyEvents start end =
     list_ex (\<lambda>event. rangesOverlap start end (ev_startDate event) (ev_endDate event))
       busyEvents"

subsection \<open>findFreeSlots\<close>

text \<open>
  The \<^verbatim>\<open>while\<close> loop that fills one gap. The source has it twice, word for word: for
  the gap before an event (\<open>gapEnd\<close> is the event's start) and for the gap after the
  day's last event (\<open>gapEnd\<close> is the window's end). The loop variable \<open>remaining\<close> is
  recomputed from \<open>gapStart\<close> at each turn, as the source does at the end of the body.
  \<^verbatim>\<open>if (!slotDuration) break\<close> leaves the loop on \<^verbatim>\<open>null\<close> and on 0. A loop that never
  ends is the value \<open>None\<close>.
\<close>

partial_function (option) carve ::
  "FreeSlotConfig \<Rightarrow> int \<Rightarrow> int \<Rightarrow> int \<Rightarrow> SuggestedSlot list \<Rightarrow> SuggestedSlot list option"
where
  "carve config now gapEnd gapStart slots =
     (let remaining = diffMinutes gapStart gapEnd in
      if remaining \<ge> minMinutes config \<and> length slots < 10 then
        (case chooseDuration remaining config of
           None \<Rightarrow> Some slots
         | Some slotDuration \<Rightarrow>
             if slotDuration = 0 then Some slots
             else
               let slot = buildSlot gapStart slotDuration in
               carve config now gapEnd (gapStart + slotDuration * 60000)
                 (if slot_startDate slot \<ge> now then slots @ [slot] else slots))
      else Some slots)"

declare carve.simps [code]

text \<open>
  \<^verbatim>\<open>todaysEvents.forEach\<close>: the events are visited in the order of the list; the state
  is the cursor and the slots found so far.
\<close>

fun walkEvents ::
  "FreeSlotConfig \<Rightarrow> int \<Rightarrow> BusyEvent list \<Rightarrow> int \<times> SuggestedSlot list
     \<Rightarrow> (int \<times> SuggestedSlot list) option"
where
  "walkEvents config now [] (cursor, slots) = Some (cursor, slots)"
| "walkEvents config now (event # rest) (cursor, slots) =
     (let eventStart = ev_startDate event; eventEnd = ev_endDate event in
      case (if eventStart > cursor then carve config now eventStart cursor slots
            else Some slots) of
        None \<Rightarrow> None
      | Some slots' \<Rightarrow>
          walkEvents config now rest
            (if eventEnd > cursor then eventEnd else cursor, slots'))"

text \<open>The initial value of \<open>cursor\<close> for a day (line 163).\<close>

definition initialCursor :: "int \<Rightarrow> int \<Rightarrow> int \<Rightarrow> int" where
  "initialCursor now dayOffset windowStart =
     (if dayOffset = 0 then max now windowStart else windowStart)"

text \<open>The body of the \<^verbatim>\<open>for\<close> loop over the day offsets.\<close>

definition scanDay ::
  "int \<Rightarrow> FreeSlotConfig \<Rightarrow> int \<Rightarrow> BusyEvent list \<Rightarrow> int \<Rightarrow> SuggestedSlot list
     \<Rightarrow> SuggestedSlot list option"
where
  "scanDay tz config now busyEvents dayOffset slots =
     (let dayStart = startOfDay tz (addDays now dayOffset);
          windowStart = setHour tz dayStart (dayStartHour config);
          windowEnd = setHour tz dayStart (dayEndHour config);
          cursor = initialCursor now dayOffset windowStart;
          todaysEvents = filter (\<lambda>event. isSameDay tz (ev_startDate event) dayStart) busyEvents
      in case walkEvents config now todaysEvents (cursor, slots) of
           None \<Rightarrow> None
         | Some (cursor', slots') \<Rightarrow>
             if windowEnd > cursor' then carve config now windowEnd cursor' slots'
             else Some slots')"

fun scanDays ::
  "int \<Rightarrow> FreeSlotConfig \<Rightarrow> int \<Rightarrow> BusyEvent list \<Rightarrow> int list \<Rightarrow> SuggestedSlot list
     \<Rightarrow> SuggestedSlot list option"
where
  "scanDays tz config now busyEvents [] slots = Some slots"
| "scanDays tz config now busyEvents (dayOffset # offsets) slots =
     (case scanDay tz config now busyEvents dayOffset slots of
        None \<Rightarrow> None
      | Some slots' \<Rightarrow> scanDays tz config now busyEvents offsets slots')"

text \<open>
  \<^verbatim>\<open>findFreeSlots(busyEvents, config)\<close>. \<open>now\<close> is not a parameter: the function reads
  the clock itself (\<^verbatim>\<open>const now = new Date()\<close>). The day offsets are 0, 1, ... while
  \<^verbatim>\<open>dayOffset < config.days\<close>.
\<close>

definition findFreeSlots ::
  "runtime \<Rightarrow> BusyEvent list \<Rightarrow> FreeSlotConfig \<Rightarrow> SuggestedSlot list option"
where
  "findFreeSlots rt busyEvents config =
     (let now = clock rt in
      map_option (take 10)
        (scanDays (tzOffset rt) config now busyEvents
           (map int [0 ..< nat (days config)]) []))"

text \<open>
  The configurations the slot finder is meant for (the caller must supply no other):
  positive durations, the minimal one not above the maximal one, a window that ends
  after it starts, and a number of days that is not negative.
\<close>

definition wellFormed :: "FreeSlotConfig \<Rightarrow> bool" where
  "wellFormed config \<longleftrightarrow>
     0 < minMinutes config \<and> 0 < maxMinutes config
     \<and> minMinutes config \<le> maxMinutes config
     \<and> dayStartHour config < dayEndHour config \<and> 0 \<le> days config"

text \<open>
  The carving policy in the words of the specification, to be compared with
  \<open>chooseDuration\<close>: the maximal duration if the remaining gap is at least that long,
  otherwise the minimal duration if the remaining gap is at least that long, otherwise
  stop.
\<close>

definition chooseDuration_spec :: "int \<Rightarrow> FreeSlotConfig \<Rightarrow> int option" where
  "chooseDuration_spec remaining config =
     (if remaining \<ge> maxMinutes config then Some (maxMinutes config)
      else if remaining \<ge> minMinutes config then Some (minMinutes config)
      else None)"

text \<open>An instant on a whole minute.\<close>

definition wholeMinute :: "int \<Rightarrow> bool" where
  "wholeMinute t \<longleftrightarrow> t mod 60000 = 0"

subsection \<open>The fallback of syncCalendar (HomeScreen.tsx)\<close>

text \<open>
  The part of \<^verbatim>\<open>syncCalendar\<close> between the call of \<open>findFreeSlots\<close> and the grouping by
  daypart: the slots are filtered to today, at least 15 minutes
  (\<^verbatim>\<open>MIN_FUTURE_BUFFER_MINUTES\<close>) ahead, and when none is left one slot is made up. \<open>now\<close>
  is a second reading of the clock. \<^verbatim>\<open>new Date(y, m, d, 0, 0, 0, 0)\<close> is the local
  midnight and \<^verbatim>\<open>new Date(y, m, d, 23, 59, 59, 999)\<close> the last millisecond of the local
  day. \<^verbatim>\<open>Math.floor\<close> of a quotient is \<open>div\<close>.
\<close>

definition minStart :: "int \<Rightarrow> int" where
  "minStart now = now + 15 * 60 * 1000"

definition startOfToday :: "int \<Rightarrow> int \<Rightarrow> int" where
  "startOfToday tz now = startOfDay tz now"

definition endOfToday :: "int \<Rightarrow> int \<Rightarrow> int" where
  "endOfToday tz now = startOfDay tz now + 86399999"

definition syncFiltered :: "int \<Rightarrow> int \<Rightarrow> SuggestedSlot list \<Rightarrow> SuggestedSlot list" where
  "syncFiltered tz now free =
     filter (\<lambda>slot. slot_startDate slot \<ge> minStart now
                    \<and> slot_startDate slot \<ge> startOfToday tz now
                    \<and> slot_endDate slot \<le> endOfToday tz now) free"

definition syncFallback :: "int \<Rightarrow> int \<Rightarrow> SuggestedSlot list \<Rightarrow> SuggestedSlot list" where
  "syncFallback tz now free =
     (let filtered = syncFiltered tz now free in
      if filtered = [] then
        (let minutesLeft = (endOfToday tz now - minStart now) div 60000;
             duration = max 0 (min 30 minutesLeft)
         in if duration \<ge> 15 then
              [\<lparr> slot_id = showInt (minStart now) @ ''-fallback'',
                 slot_startDate = minStart now,
                 slot_endDate = minStart now + duration * 60000,
                 durationMinutes = duration,
                 status = available \<rparr>]
            else filtered)
      else filtered)"

section \<open>The carving loop\<close>

lemma buildSlot_sel [simp]:
  "slot_startDate (buildSlot a d) = a"
  "slot_endDate (buildSlot a d) = a + d * 60000"
  "durationMinutes (buildSlot a d) = d"
  "slot_id (buildSlot a d) = showInt a @ ''-'' @ showInt d"
  by (simp_all add: buildSlot_def)

text \<open>
  What one turn of the loop does, as an induction rule over its runs that end: either
  the loop stops and the slots are unchanged, or it chooses a duration \<open>d\<close> that is not
  0, records the slot at \<open>gapStart\<close> if that is not before \<open>now\<close>, and goes on from
  \<open>gapStart + d\<close> minutes. Nothing is assumed about termination.
\<close>

lemma carve_induct:
  assumes run: "carve config now gapEnd gapStart slots = Some out"
    and stop: "\<And>gapStart slots. R gapStart slots slots"
    and step: "\<And>gapStart slots d out.
        minMinutes config \<le> diffMinutes gapStart gapEnd \<Longrightarrow> length slots < 10
        \<Longrightarrow> chooseDuration (diffMinutes gapStart gapEnd) config = Some d \<Longrightarrow> d \<noteq> 0
        \<Longrightarrow> R (gapStart + d * 60000)
              (if now \<le> gapStart then slots @ [buildSlot gapStart d] else slots) out
        \<Longrightarrow> R gapStart slots out"
  shows "R gapStart slots out"
proof -
  let ?Q = "\<lambda>(config' :: FreeSlotConfig) now' (gapEnd' :: int) (gapStart :: int)
               (slots :: SuggestedSlot list) (out :: SuggestedSlot list).
      config' = config \<and> now' = now \<and> gapEnd' = gapEnd \<longrightarrow> R gapStart slots out"
  have "?Q config now gapEnd gapStart slots out"
  proof (rule carve.raw_induct[where P = ?Q, OF _ run])
    fix carve' and config' :: FreeSlotConfig and now' gapEnd' gapStart slots out
    assume IH: "\<And>(config' :: FreeSlotConfig) now' gapEnd' gapStart slots out.
        carve' config' now' gapEnd' gapStart slots = Some out
        \<Longrightarrow> ?Q config' now' gapEnd' gapStart slots out"
    assume body: "(let remaining = diffMinutes gapStart gapEnd' in
      if remaining \<ge> minMinutes config' \<and> length slots < 10 then
        (case chooseDuration remaining config' of
           None \<Rightarrow> Some slots
         | Some slotDuration \<Rightarrow>
             if slotDuration = 0 then Some slots
             else
               let slot = buildSlot gapStart slotDuration in
               carve' config' now' gapEnd' (gapStart + slotDuration * 60000)
                 (if slot_startDate slot \<ge> now' then slots @ [slot] else slots))
      else Some slots) = Some out"
    show "?Q config' now' gapEnd' gapStart slots out"
    proof (intro impI, elim conjE)
      assume eqs: "config' = config" "now' = now" "gapEnd' = gapEnd"
      show "R gapStart slots out"
      proof (cases "minMinutes config \<le> diffMinutes gapStart gapEnd \<and> length slots < 10")
        case False
        with body eqs have "out = slots" by (auto simp: Let_def)
        with stop show ?thesis by simp
      next
        case True
        show ?thesis
        proof (cases "chooseDuration (diffMinutes gapStart gapEnd) config")
          case None
          with True body eqs have "out = slots" by (auto simp: Let_def)
          with stop show ?thesis by simp
        next
          case (Some d)
          show ?thesis
          proof (cases "d = 0")
            case True
            with \<open>minMinutes config \<le> diffMinutes gapStart gapEnd \<and> length slots < 10\<close>
              Some body eqs have "out = slots" by (auto simp: Let_def)
            with stop show ?thesis by simp
          next
            case False
            let ?slots' = "if now \<le> gapStart then slots @ [buildSlot gapStart d] else slots"
            from True Some False body eqs
            have "carve' config now gapEnd (gapStart + d * 60000)
                (if now \<le> slot_startDate (buildSlot gapStart d)
                 then slots @ [buildSlot gapStart d] else slots) = Some out"
              by (simp add: Let_def del: buildSlot_sel)
            then have "carve' config now gapEnd (gapStart + d * 60000) ?slots' = Some out"
              by (simp only: buildSlot_sel)
            from IH[OF this] have rec: "R (gapStart + d * 60000) ?slots' out" by simp
            from True have "minMinutes config \<le> diffMinutes gapStart gapEnd"
              and "length slots < 10" by simp_all
            from step[OF this Some False rec] show ?thesis .
          qed
        qed
      qed
    qed
  qed
  then show ?thesis by simp
qed

lemma chooseDuration_cases:
  assumes "chooseDuration remaining config = Some d"
  shows "minMinutes config \<le> remaining"
    and "d = minMinutes config \<or> d = maxMinutes config"
    and "d = maxMinutes config \<longrightarrow> maxMinutes config \<le> remaining"
  using assms by (auto simp: chooseDuration_def split: if_splits)

section \<open>Facts about every slot of the result\<close>

text \<open>
  A property that holds of every slot \<open>buildSlot\<close> can be asked to build (from an
  anchor that is not before \<open>now\<close>, with the minimal or the maximal duration) holds of
  every slot of the result.
\<close>

lemma carve_all:
  assumes run: "carve config now gapEnd gapStart slots = Some out"
    and inv: "\<forall>s \<in> set slots. P s"
    and build: "\<And>a d. now \<le> a \<Longrightarrow> d = minMinutes config \<or> d = maxMinutes config
           \<Longrightarrow> P (buildSlot a d)"
  shows "\<forall>s \<in> set out. P s"
proof -
  have "(\<forall>s \<in> set slots. P s) \<longrightarrow> (\<forall>s \<in> set out. P s)"
  proof (rule carve_induct[where R = "\<lambda>gapStart slots out.
            (\<forall>s \<in> set slots. P s) \<longrightarrow> (\<forall>s \<in> set out. P s)", OF run])
    fix gapStart slots d out
    assume "chooseDuration (diffMinutes gapStart gapEnd) config = Some d"
      and rec: "(\<forall>s \<in> set (if now \<le> gapStart then slots @ [buildSlot gapStart d] else slots). P s)
                \<longrightarrow> (\<forall>s \<in> set out. P s)"
    then have "d = minMinutes config \<or> d = maxMinutes config"
      by (simp add: chooseDuration_cases(2))
    then have new: "now \<le> gapStart \<Longrightarrow> P (buildSlot gapStart d)"
      by (rule build[rotated])
    show "(\<forall>s \<in> set slots. P s) \<longrightarrow> (\<forall>s \<in> set out. P s)"
    proof (cases "now \<le> gapStart")
      case True
      with rec new show ?thesis by simp
    next
      case False
      with rec show ?thesis by simp
    qed
  qed simp
  with inv show ?thesis by simp
qed

lemma walkEvents_all:
  assumes "\<And>a d. now \<le> a \<Longrightarrow> d = minMinutes config \<or> d = maxMinutes config
           \<Longrightarrow> P (buildSlot a d)"
  shows "walkEvents config now events (cursor, slots) = Some (cursor', out)
         \<Longrightarrow> \<forall>s \<in> set slots. P s \<Longrightarrow> \<forall>s \<in> set out. P s"
proof (induction events arbitrary: cursor slots)
  case Nil
  then show ?case by simp
next
  case (Cons event rest)
  obtain mid where mid:
    "(if ev_startDate event > cursor then carve config now (ev_startDate event) cursor slots
      else Some slots) = Some mid"
    and rest: "walkEvents config now rest
      (if ev_endDate event > cursor then ev_endDate event else cursor, mid) = Some (cursor', out)"
    using Cons.prems(1) by (auto simp: Let_def split: option.splits)
  have "\<forall>s \<in> set mid. P s"
  proof (cases "ev_startDate event > cursor")
    case True
    with mid have "carve config now (ev_startDate event) cursor slots = Some mid" by simp
    from carve_all[OF this Cons.prems(2) assms] show ?thesis by simp
  next
    case False
    with mid Cons.prems(2) show ?thesis by simp
  qed
  with Cons.IH[OF rest] show ?case by simp
qed

lemma scanDay_all:
  assumes "\<And>a d. now \<le> a \<Longrightarrow> d = minMinutes config \<or> d = maxMinutes config
           \<Longrightarrow> P (buildSlot a d)"
    and "scanDay tz config now busyEvents dayOffset slots = Some out"
    and "\<forall>s \<in> set slots. P s"
  shows "\<forall>s \<in> set out. P s"
proof -
  let ?dayStart = "startOfDay tz (addDays now dayOffset)"
  let ?windowStart = "setHour tz ?dayStart (dayStartHour config)"
  let ?windowEnd = "setHour tz ?dayStart (dayEndHour config)"
  let ?todays = "filter (\<lambda>event. isSameDay tz (ev_startDate event) ?dayStart) busyEvents"
  obtain cursor' mid where walk:
    "walkEvents config now ?todays (initialCursor now dayOffset ?windowStart, slots)
       = Some (cursor', mid)"
    and fin: "(if ?windowEnd > cursor' then carve config now ?windowEnd cursor' mid
               else Some mid) = Some out"
    using assms(2) by (auto simp: scanDay_def Let_def split: option.splits)
  have mid: "\<forall>s \<in> set mid. P s"
    using walkEvents_all[where P = P, OF assms(1) walk assms(3)] by simp
  show ?thesis
  proof (cases "?windowEnd > cursor'")
    case True
    with fin have "carve config now ?windowEnd cursor' mid = Some out" by simp
    from carve_all[OF this mid assms(1)] show ?thesis by simp
  next
    case False
    with fin mid show ?thesis by simp
  qed
qed

lemma scanDays_all:
  assumes "\<And>a d. now \<le> a \<Longrightarrow> d = minMinutes config \<or> d = maxMinutes config
           \<Longrightarrow> P (buildSlot a d)"
  shows "scanDays tz config now busyEvents offsets slots = Some out
         \<Longrightarrow> \<forall>s \<in> set slots. P s \<Longrightarrow> \<forall>s \<in> set out. P s"
proof (induction offsets arbitrary: slots)
  case Nil
  then show ?case by simp
next
  case (Cons dayOffset offsets)
  then obtain mid where day: "scanDay tz config now busyEvents dayOffset slots = Some mid"
    and rest: "scanDays tz config now busyEvents offsets mid = Some out"
    by (auto split: option.splits)
  from scanDay_all[where P = P, OF assms day Cons.prems(2)] Cons.IH[OF rest]
  show ?case by simp
qed

lemma findFreeSlots_all:
  assumes "findFreeSlots rt busyEvents config = Some out"
    and "\<And>a d. clock rt \<le> a \<Longrightarrow> d = minMinutes config \<or> d = maxMinutes config
           \<Longrightarrow> P (buildSlot a d)"
  shows "\<forall>s \<in> set out. P s"
proof -
  obtain full where full: "scanDays (tzOffset rt) config (clock rt) busyEvents
      (map int [0 ..< nat (days config)]) [] = Some full"
    and out: "out = take 10 full"
    using assms(1) by (auto simp: findFreeSlots_def Let_def)
  have "\<forall>s \<in> set full. P s"
    using scanDays_all[where P = P, OF assms(2) full] by simp
  with out show ?thesis by (auto dest: in_set_takeD)
qed

section \<open>Overlap test\<close>

text \<open>
  C2. \<open>hasConflict busy start end\<close> is true exactly when some event \<open>b\<close> of \<open>busy\<close> has
  \<open>b.start < end\<close> and \<open>start < b.end\<close> (half-open overlap).
\<close>

theorem hasConflict_iff:
  "hasConflict busy start end \<longleftrightarrow>
     (\<exists>b \<in> set busy. ev_startDate b < end \<and> start < ev_endDate b)"
  by (auto simp: hasConflict_def rangesOverlap_def list_ex_iff)

theorem hasConflict_iff_witness:
  "\<not> hasConflict [\<lparr>ev_startDate = 1705312800000, ev_endDate = 1705314600000\<rparr>]
       1705314600000 1705316400000
   \<and> hasConflict [\<lparr>ev_startDate = 1705312800000, ev_endDate = 1705314600000\<rparr>]
       1705314599999 1705316400000"
  using hasConflict_iff [of "[\<lparr>ev_startDate = 1705312800000, ev_endDate = 1705314600000\<rparr>]"
      1705314600000 1705316400000]
    hasConflict_iff [of "[\<lparr>ev_startDate = 1705312800000, ev_endDate = 1705314600000\<rparr>]"
      1705314599999 1705316400000]
  by simp

section \<open>Past time and the cap\<close>






text \<open>C8. The result never has more than 10 slots.\<close>

theorem at_most_ten:
  "findFreeSlots rt busyEvents config = Some out \<Longrightarrow> length out \<le> 10"
  by (auto simp: findFreeSlots_def Let_def)



theorem at_most_ten_witness:
  "findFreeSlots \<lparr>clock = 1705302000000, tzOffset = 0\<rparr> []
       \<lparr>days = 1, minMinutes = 15, maxMinutes = 30, dayStartHour = 7, dayEndHour = 22\<rparr>
     = Some (map (\<lambda>k. buildSlot (1705302000000 + k * 1800000) 30) [0 .. 9])
   \<and> length (map (\<lambda>k. buildSlot (1705302000000 + k * 1800000) 30) [0 .. 9]) \<le> 10"
proof -
  have run: "findFreeSlots \<lparr>clock = 1705302000000, tzOffset = 0\<rparr> []
       \<lparr>days = 1, minMinutes = 15, maxMinutes = 30, dayStartHour = 7, dayEndHour = 22\<rparr>
     = Some (map (\<lambda>k. buildSlot (1705302000000 + k * 1800000) 30) [0 .. 9])"
    by code_simp
  from at_most_ten [OF run] run show ?thesis by blast
qed
section \<open>Termination\<close>

text \<open>Moving the start of a gap by \<open>d\<close> minutes takes \<open>d\<close> off the rounded quotient.\<close>

lemma diffMinutes_step:
  "diffMinutes (gapStart + d * 60000) gapEnd
     = max 0 ((gapEnd - gapStart + 30000) div 60000 - d)"
proof -
  have "gapEnd - (gapStart + d * 60000) + 30000 = (gapEnd - gapStart + 30000) + (- d) * 60000"
    by simp
  then have "(gapEnd - (gapStart + d * 60000) + 30000) div 60000
      = (gapEnd - gapStart + 30000) div 60000 - d"
    by (simp only: div_mult_self1)
  then show ?thesis by (simp add: diffMinutes_def)
qed

text \<open>
  With positive durations the remaining minutes go down at every turn, so the loop
  ends; the measure is the number of remaining minutes.
\<close>

lemma carve_terminates:
  assumes pos: "0 < minMinutes config" "0 < maxMinutes config"
  shows "\<exists>out. carve config now gapEnd gapStart slots = Some out"
proof (induction "nat (diffMinutes gapStart gapEnd)" arbitrary: gapStart slots
    rule: less_induct)
  case less
  show ?case
  proof (cases "minMinutes config \<le> diffMinutes gapStart gapEnd \<and> length slots < 10")
    case False
    then show ?thesis by (subst carve.simps) (auto simp: Let_def)
  next
    case True
    with pos have rem: "0 < diffMinutes gapStart gapEnd" by simp
    from True have "\<exists>d. chooseDuration (diffMinutes gapStart gapEnd) config = Some d"
      by (simp add: chooseDuration_def)
    then obtain d where d: "chooseDuration (diffMinutes gapStart gapEnd) config = Some d" ..
    with pos have dpos: "0 < d" using chooseDuration_cases(2)[OF d] by auto
    from rem have "diffMinutes gapStart gapEnd = (gapEnd - gapStart + 30000) div 60000"
      by (simp add: diffMinutes_def split: if_splits)
    with rem dpos have "nat (diffMinutes (gapStart + d * 60000) gapEnd)
        < nat (diffMinutes gapStart gapEnd)"
      by (simp add: diffMinutes_step)
    from less[OF this] obtain out where
      "carve config now gapEnd (gapStart + d * 60000)
         (if now \<le> gapStart then slots @ [buildSlot gapStart d] else slots) = Some out"
      by blast
    with True d dpos show ?thesis
      by (subst carve.simps) (simp add: Let_def)
  qed
qed

lemma walkEvents_terminates:
  assumes pos: "0 < minMinutes config" "0 < maxMinutes config"
  shows "\<exists>r. walkEvents config now events (cursor, slots) = Some r"
proof (induction events arbitrary: cursor slots)
  case Nil
  show ?case by simp
next
  case (Cons event rest)
  have "\<exists>mid. (if ev_startDate event > cursor
      then carve config now (ev_startDate event) cursor slots else Some slots) = Some mid"
    using carve_terminates[OF pos, of now "ev_startDate event" cursor slots] by simp
  then obtain mid where mid:
    "(if ev_startDate event > cursor then carve config now (ev_startDate event) cursor slots
      else Some slots) = Some mid" ..
  from Cons[of "if ev_endDate event > cursor then ev_endDate event else cursor" mid]
  obtain r where "walkEvents config now rest
      (if ev_endDate event > cursor then ev_endDate event else cursor, mid) = Some r"
    by blast
  with mid show ?case by (simp add: Let_def)
qed

lemma scanDay_terminates:
  assumes pos: "0 < minMinutes config" "0 < maxMinutes config"
  shows "\<exists>out. scanDay tz config now busyEvents dayOffset slots = Some out"
proof -
  let ?dayStart = "startOfDay tz (addDays now dayOffset)"
  let ?windowEnd = "setHour tz ?dayStart (dayEndHour config)"
  obtain cursor' mid where walk: "walkEvents config now
      (filter (\<lambda>event. isSameDay tz (ev_startDate event) ?dayStart) busyEvents)
      (initialCursor now dayOffset (setHour tz ?dayStart (dayStartHour config)), slots)
        = Some (cursor', mid)"
    using walkEvents_terminates[OF pos] by (metis surj_pair)
  have "\<exists>out. (if ?windowEnd > cursor' then carve config now ?windowEnd cursor' mid
      else Some mid) = Some out"
    using carve_terminates[OF pos, of now ?windowEnd cursor' mid] by simp
  then obtain out where "(if ?windowEnd > cursor' then carve config now ?windowEnd cursor' mid
      else Some mid) = Some out" ..
  with walk show ?thesis by (simp add: scanDay_def Let_def)
qed

lemma scanDays_terminates:
  assumes pos: "0 < minMinutes config" "0 < maxMinutes config"
  shows "\<exists>out. scanDays tz config now busyEvents offsets slots = Some out"
proof (induction offsets arbitrary: slots)
  case Nil
  show ?case by simp
next
  case (Cons dayOffset offsets)
  from scanDay_terminates[OF pos] obtain mid where
    "scanDay tz config now busyEvents dayOffset slots = Some mid" by blast
  with Cons[of mid] show ?case by simp
qed

text \<open>
  C9. On a well-formed configuration \<open>findFreeSlots\<close> returns a list, whatever the busy
  list and the clock, and every run of the carving loop ends. \<open>hasConflict\<close> is a test
  over the elements of a finite list, with no loop of its own: it has a value for
  every input.
\<close>

theorem findFreeSlots_total:
  assumes "wellFormed config"
  shows "(\<exists>out. findFreeSlots rt busyEvents config = Some out)
         \<and> (\<exists>out. carve config now gapEnd gapStart slots = Some out)"
proof -
  from assms have pos: "0 < minMinutes config" "0 < maxMinutes config"
    by (simp_all add: wellFormed_def)
  from scanDays_terminates[OF pos] obtain full where
    "scanDays (tzOffset rt) config (clock rt) busyEvents
       (map int [0 ..< nat (days config)]) [] = Some full" by blast
  then have "\<exists>out. findFreeSlots rt busyEvents config = Some out"
    by (simp add: findFreeSlots_def)
  with carve_terminates[OF pos] show ?thesis by blast
qed

theorem findFreeSlots_total_witness:
  "wellFormed \<lparr>days = 2, minMinutes = 15, maxMinutes = 30, dayStartHour = 7, dayEndHour = 22\<rparr>
   \<and> (\<exists>out. findFreeSlots \<lparr>clock = 1705302600123, tzOffset = 3600000\<rparr>
         [\<lparr>ev_startDate = 1705305600000, ev_endDate = 1705309200000\<rparr>]
         \<lparr>days = 2, minMinutes = 15, maxMinutes = 30, dayStartHour = 7, dayEndHour = 22\<rparr>
        = Some out)
   \<and> (\<exists>out. carve \<lparr>days = 2, minMinutes = 15, maxMinutes = 30, dayStartHour = 7,
           dayEndHour = 22\<rparr> 1705302600123 1705305600000 1705302600123 [] = Some out)"
proof -
  have wf: "wellFormed
      \<lparr>days = 2, minMinutes = 15, maxMinutes = 30, dayStartHour = 7, dayEndHour = 22\<rparr>"
    by (simp add: wellFormed_def)
  from findFreeSlots_total[OF wf] wf show ?thesis by blast
qed

section \<open>Greedy carving\<close>

text \<open>
  In terms of the remaining minutes as the code counts them (\<open>diffMinutes\<close>, the
  difference rounded to the nearest minute) the loop is greedy, longest first. With
  the minimal duration not above the maximal one, \<open>chooseDuration\<close> is the policy of
  the specification. A gap whose remaining minutes are below the minimum leaves the
  slots as they are. From a gap whose remaining minutes reach the maximal duration
  the loop emits the slot of maximal duration at the gap's start and goes on from its
  end; from one whose remaining minutes reach the minimal duration only, it emits the
  slot of minimal duration and goes on from its end (in both cases when the gap's
  start is not before \<open>now\<close> and the cap is not reached). With no busy event, 15 and
  30 minutes, the window 07:00 to 22:00 and the clock at 07:00, the first two slots
  are 07:00 to 07:30 and 07:30 to 08:00.
\<close>

lemma carve_policy:
  assumes "0 < minMinutes config" and "minMinutes config \<le> maxMinutes config"
  shows "chooseDuration remaining config = chooseDuration_spec remaining config
    \<and> (diffMinutes gapStart gapEnd < minMinutes config
         \<longrightarrow> carve config now gapEnd gapStart slots = Some slots)
    \<and> (maxMinutes config \<le> diffMinutes gapStart gapEnd \<and> length slots < 10 \<and> now \<le> gapStart
         \<longrightarrow> carve config now gapEnd gapStart slots
             = carve config now gapEnd (gapStart + maxMinutes config * 60000)
                 (slots @ [buildSlot gapStart (maxMinutes config)]))
    \<and> (minMinutes config \<le> diffMinutes gapStart gapEnd
         \<and> diffMinutes gapStart gapEnd < maxMinutes config
         \<and> length slots < 10 \<and> now \<le> gapStart
         \<longrightarrow> carve config now gapEnd gapStart slots
             = carve config now gapEnd (gapStart + minMinutes config * 60000)
                 (slots @ [buildSlot gapStart (minMinutes config)]))
    \<and> map_option (take 2)
           (findFreeSlots \<lparr>clock = 1705302000000, tzOffset = 0\<rparr> []
              \<lparr>days = 1, minMinutes = 15, maxMinutes = 30, dayStartHour = 7, dayEndHour = 22\<rparr>)
         = Some [\<lparr>slot_id = ''1705302000000-30'', slot_startDate = 1705302000000,
                   slot_endDate = 1705303800000, durationMinutes = 30, status = available\<rparr>,
                 \<lparr>slot_id = ''1705303800000-30'', slot_startDate = 1705303800000,
                   slot_endDate = 1705305600000, durationMinutes = 30, status = available\<rparr>]"
proof (intro conjI impI)
  show "chooseDuration remaining config = chooseDuration_spec remaining config"
    using assms by (simp add: chooseDuration_def chooseDuration_spec_def)
next
  assume "diffMinutes gapStart gapEnd < minMinutes config"
  then show "carve config now gapEnd gapStart slots = Some slots"
    by (subst carve.simps) (simp add: Let_def)
next
  assume "maxMinutes config \<le> diffMinutes gapStart gapEnd \<and> length slots < 10 \<and> now \<le> gapStart"
  then have big: "maxMinutes config \<le> diffMinutes gapStart gapEnd"
    and room: "length slots < 10" and future: "now \<le> gapStart"
    by simp_all
  from big assms have "chooseDuration (diffMinutes gapStart gapEnd) config
      = Some (maxMinutes config)"
    by (simp add: chooseDuration_def)
  with big room future assms show "carve config now gapEnd gapStart slots
      = carve config now gapEnd (gapStart + maxMinutes config * 60000)
          (slots @ [buildSlot gapStart (maxMinutes config)])"
    by (subst carve.simps) (simp add: Let_def)
next
  assume "minMinutes config \<le> diffMinutes gapStart gapEnd
      \<and> diffMinutes gapStart gapEnd < maxMinutes config
      \<and> length slots < 10 \<and> now \<le> gapStart"
  then have enough: "minMinutes config \<le> diffMinutes gapStart gapEnd"
    and small: "diffMinutes gapStart gapEnd < maxMinutes config"
    and room: "length slots < 10" and future: "now \<le> gapStart"
    by simp_all
  from enough small have "chooseDuration (diffMinutes gapStart gapEnd) config
      = Some (minMinutes config)"
    by (simp add: chooseDuration_def)
  with enough room future assms show "carve config now gapEnd gapStart slots
      = carve config now gapEnd (gapStart + minMinutes config * 60000)
          (slots @ [buildSlot gapStart (minMinutes config)])"
    by (subst carve.simps) (simp add: Let_def)
next
  show "map_option (take 2)
           (findFreeSlots \<lparr>clock = 1705302000000, tzOffset = 0\<rparr> []
              \<lparr>days = 1, minMinutes = 15, maxMinutes = 30, dayStartHour = 7, dayEndHour = 22\<rparr>)
         = Some [\<lparr>slot_id = ''1705302000000-30'', slot_startDate = 1705302000000,
                   slot_endDate = 1705303800000, durationMinutes = 30, status = available\<rparr>,
                 \<lparr>slot_id = ''1705303800000-30'', slot_startDate = 1705303800000,
                   slot_endDate = 1705305600000, durationMinutes = 30, status = available\<rparr>]"
    by code_simp
qed

text \<open>
  C4 asks for more: that a gap shorter than the minimal duration yields nothing, and
  that the maximal duration is chosen only when the remaining gap is at least that
  long. The remaining minutes are rounded to the nearest minute, so half a minute is
  counted that is not there. At 07:00, with 15 and 30 minutes and the window 07:00 to
  08:00: before an event at 07:14:30 the gap is 870000 ms, less than 15 minutes, and
  the slot 07:00 to 07:15 is emitted; before an event at 07:29:30 the gap is 1770000
  ms, less than 30 minutes, and the slot 07:00 to 07:30 is emitted, where the policy
  gives 07:00 to 07:15.
\<close>

theorem half_minute_gap_carved:
  "findFreeSlots \<lparr>clock = 1705302000000, tzOffset = 0\<rparr>
       [\<lparr>ev_startDate = 1705302870000, ev_endDate = 1705305600000\<rparr>]
       \<lparr>days = 1, minMinutes = 15, maxMinutes = 30, dayStartHour = 7, dayEndHour = 8\<rparr>
     = Some [buildSlot 1705302000000 15]
   \<and> 1705302870000 - 1705302000000
       < minMinutes \<lparr>days = 1, minMinutes = 15, maxMinutes = 30, dayStartHour = 7,
           dayEndHour = 8\<rparr> * 60000
   \<and> diffMinutes 1705302000000 1705302870000 = 15
   \<and> findFreeSlots \<lparr>clock = 1705302000000, tzOffset = 0\<rparr>
       [\<lparr>ev_startDate = 1705303770000, ev_endDate = 1705305600000\<rparr>]
       \<lparr>days = 1, minMinutes = 15, maxMinutes = 30, dayStartHour = 7, dayEndHour = 8\<rparr>
     = Some [buildSlot 1705302000000 30]
   \<and> 1705303770000 - 1705302000000
       < maxMinutes \<lparr>days = 1, minMinutes = 15, maxMinutes = 30, dayStartHour = 7,
           dayEndHour = 8\<rparr> * 60000
   \<and> diffMinutes 1705302000000 1705303770000 = 30
   \<and> carve \<lparr>days = 1, minMinutes = 15, maxMinutes = 30, dayStartHour = 7, dayEndHour = 8\<rparr>
         1705302000000 1705302870000 1705302000000 []
       = Some [buildSlot 1705302000000 15]"
  by code_simp

section \<open>Determinism and slot identifiers\<close>

text \<open>
  C5, as the specification states it: \<open>now\<close> is an argument of \<open>findFreeSlots\<close> and
  the result is determined by the caller's arguments. The code takes two arguments,
  the busy list and the configuration, and reads the clock itself: the same two
  arguments give different results at 07:00 and at 07:30.
\<close>

theorem result_depends_on_clock:
  "findFreeSlots \<lparr>clock = 1705302000000, tzOffset = 0\<rparr> []
       \<lparr>days = 1, minMinutes = 15, maxMinutes = 30, dayStartHour = 7, dayEndHour = 8\<rparr>
     = Some [buildSlot 1705302000000 30, buildSlot 1705303800000 30]
   \<and> findFreeSlots \<lparr>clock = 1705303800000, tzOffset = 0\<rparr> []
       \<lparr>days = 1, minMinutes = 15, maxMinutes = 30, dayStartHour = 7, dayEndHour = 8\<rparr>
     = Some [buildSlot 1705303800000 30]
   \<and> findFreeSlots \<lparr>clock = 1705302000000, tzOffset = 0\<rparr> []
       \<lparr>days = 1, minMinutes = 15, maxMinutes = 30, dayStartHour = 7, dayEndHour = 8\<rparr>
     \<noteq> findFreeSlots \<lparr>clock = 1705303800000, tzOffset = 0\<rparr> []
       \<lparr>days = 1, minMinutes = 15, maxMinutes = 30, dayStartHour = 7, dayEndHour = 8\<rparr>"
  by code_simp

text \<open>
  C5, amended. \<open>findFreeSlots\<close> reads the current time from the clock; for one reading
  of the clock (and one time zone) the result is a function of the busy list and the
  configuration, and the identifier of a slot is made of its start and its duration
  only: two slots with the same start and the same duration, from any two calls
  (other busy lists, configurations or clock readings), have the same identifier.
\<close>

theorem slot_id_determined:
  assumes "findFreeSlots rt busyEvents config = Some out"
    and "findFreeSlots rt' busyEvents' config' = Some out'"
    and "s \<in> set out" and "s' \<in> set out'"
    and "slot_startDate s = slot_startDate s'"
    and "durationMinutes s = durationMinutes s'"
  shows "slot_id s = slot_id s'
         \<and> slot_id s = showInt (slot_startDate s) @ ''-'' @ showInt (durationMinutes s)"
proof -
  let ?P = "\<lambda>s. slot_id s = showInt (slot_startDate s) @ ''-'' @ showInt (durationMinutes s)"
  have "\<forall>s \<in> set out. ?P s"
    by (rule findFreeSlots_all[OF assms(1)]) simp
  moreover have "\<forall>s \<in> set out'. ?P s"
    by (rule findFreeSlots_all[OF assms(2)]) simp
  ultimately show ?thesis using assms(3-6) by simp
qed

theorem slot_id_determined_witness:
  "findFreeSlots \<lparr>clock = 1705302000000, tzOffset = 0\<rparr> []
       \<lparr>days = 1, minMinutes = 15, maxMinutes = 30, dayStartHour = 7, dayEndHour = 8\<rparr>
     = Some [buildSlot 1705302000000 30, buildSlot 1705303800000 30]
   \<and> findFreeSlots \<lparr>clock = 1705303800000, tzOffset = 0\<rparr>
       [\<lparr>ev_startDate = 1705305600000, ev_endDate = 1705309200000\<rparr>]
       \<lparr>days = 1, minMinutes = 30, maxMinutes = 30, dayStartHour = 7, dayEndHour = 8\<rparr>
     = Some [buildSlot 1705303800000 30]
   \<and> slot_id (buildSlot 1705303800000 30) = ''1705303800000-30''"
proof -
  have a: "findFreeSlots \<lparr>clock = 1705302000000, tzOffset = 0\<rparr> []
       \<lparr>days = 1, minMinutes = 15, maxMinutes = 30, dayStartHour = 7, dayEndHour = 8\<rparr>
     = Some [buildSlot 1705302000000 30, buildSlot 1705303800000 30]"
    by code_simp
  have b: "findFreeSlots \<lparr>clock = 1705303800000, tzOffset = 0\<rparr>
       [\<lparr>ev_startDate = 1705305600000, ev_endDate = 1705309200000\<rparr>]
       \<lparr>days = 1, minMinutes = 30, maxMinutes = 30, dayStartHour = 7, dayEndHour = 8\<rparr>
     = Some [buildSlot 1705303800000 30]"
    by code_simp
  have c: "showInt 1705303800000 @ ''-'' @ showInt 30 = ''1705303800000-30''"
    by code_simp
  from slot_id_determined[OF a b, of "buildSlot 1705303800000 30" "buildSlot 1705303800000 30"]
  have "slot_id (buildSlot 1705303800000 30)
      = showInt (slot_startDate (buildSlot 1705303800000 30)) @ ''-''
        @ showInt (durationMinutes (buildSlot 1705303800000 30))"
    by simp
  with a b c show ?thesis by simp
qed

section \<open>Durations and the scan window\<close>

text \<open>Every slot of the result has the minimal or the maximal duration.\<close>

lemma slot_durations:
  assumes "findFreeSlots rt busyEvents config = Some out"
  shows "\<forall>s \<in> set out. durationMinutes s = minMinutes config
                        \<or> durationMinutes s = maxMinutes config"
  by (rule findFreeSlots_all[OF assms]) simp

text \<open>
  C3 asks every slot to have the minimal or the maximal duration (it has) and to lie
  inside its day's window. The gap before an event is carved up to the event's start,
  also when the event starts after the window's end: at 21:00, with the window 07:00
  to 22:00 and an event from 22:30 to 23:00, the third slot is 22:00 to 22:30, while
  the window ends at 22:00 (1705356000000). And the remaining minutes are rounded to
  the nearest minute: at 21:45:30 with no event, the 14.5 minutes left count as 15
  and the slot ends at 22:00:30.
\<close>

theorem slot_after_window_end:
  "findFreeSlots \<lparr>clock = 1705352400000, tzOffset = 0\<rparr>
       [\<lparr>ev_startDate = 1705357800000, ev_endDate = 1705359600000\<rparr>]
       \<lparr>days = 1, minMinutes = 15, maxMinutes = 30, dayStartHour = 7, dayEndHour = 22\<rparr>
     = Some [buildSlot 1705352400000 30, buildSlot 1705354200000 30,
             buildSlot 1705356000000 30]
   \<and> setHour 0 (startOfDay 0 (addDays 1705352400000 0)) 22 = 1705356000000
   \<and> slot_endDate (buildSlot 1705356000000 30) = 1705357800000
   \<and> findFreeSlots \<lparr>clock = 1705355130000, tzOffset = 0\<rparr> []
       \<lparr>days = 1, minMinutes = 15, maxMinutes = 30, dayStartHour = 7, dayEndHour = 22\<rparr>
     = Some [buildSlot 1705355130000 15]
   \<and> slot_endDate (buildSlot 1705355130000 15) = 1705356030000"
  by code_simp

section \<open>The order of the busy list\<close>







section \<open>Slots and busy events\<close>

subsection \<open>Local days and whole minutes\<close>

lemma startOfDay_alt: "startOfDay tz t = t - (t + tz) mod 86400000"
  by (simp add: startOfDay_def minus_mod_eq_div_mult[symmetric])

lemma startOfDay_le: "startOfDay tz t \<le> t"
  by (simp add: startOfDay_alt)

lemma startOfDay_gt: "t < startOfDay tz t + 86400000"
  by (simp add: startOfDay_alt)

lemma isSameDay_iff: "isSameDay tz a b \<longleftrightarrow> startOfDay tz a = startOfDay tz b"
  by (simp add: isSameDay_def startOfDay_def)

lemma startOfDay_idem: "startOfDay tz (startOfDay tz t) = startOfDay tz t"
  by (simp add: startOfDay_def)

lemma startOfDay_apart:
  assumes "startOfDay tz a \<noteq> startOfDay tz b"
  shows "startOfDay tz a + 86400000 \<le> startOfDay tz b
         \<or> startOfDay tz b + 86400000 \<le> startOfDay tz a"
proof -
  from assms have "(a + tz) div 86400000 \<noteq> (b + tz) div 86400000"
    by (auto simp: startOfDay_def)
  then have "(a + tz) div 86400000 + 1 \<le> (b + tz) div 86400000
      \<or> (b + tz) div 86400000 + 1 \<le> (a + tz) div 86400000"
    by linarith
  then show ?thesis by (auto simp: startOfDay_def)
qed

lemma wholeMinute_dvd: "wholeMinute t \<longleftrightarrow> 60000 dvd t"
  by (simp add: wholeMinute_def mod_eq_0_iff_dvd)

lemma wholeMinute_add: "wholeMinute a \<Longrightarrow> wholeMinute (a + d * 60000)"
  by (simp add: wholeMinute_dvd)

lemma wholeMinute_startOfDay:
  assumes "wholeMinute tz"
  shows "wholeMinute (startOfDay tz t)"
proof -
  have "(60000::int) dvd 86400000" by simp
  then have "60000 dvd ((t + tz) div 86400000) * 86400000" by (rule dvd_mult)
  moreover from assms have "60000 dvd tz" by (simp add: wholeMinute_dvd)
  ultimately have "60000 dvd ((t + tz) div 86400000) * 86400000 - tz" by (rule dvd_diff)
  then show ?thesis by (simp add: wholeMinute_dvd startOfDay_def)
qed

lemma wholeMinute_setHour: "wholeMinute tz \<Longrightarrow> wholeMinute (setHour tz t h)"
proof -
  assume "wholeMinute tz"
  then have "wholeMinute (startOfDay tz t + (h * 60) * 60000)"
    by (intro wholeMinute_add wholeMinute_startOfDay)
  moreover have "(h * 60) * 60000 = h * 3600000" by simp
  ultimately show ?thesis by (simp only: setHour_def)
qed

text \<open>Between two instants on whole minutes the rounded difference is the exact one.\<close>

lemma diffMinutes_exact:
  assumes "wholeMinute gapStart" and "wholeMinute gapEnd"
    and "0 < diffMinutes gapStart gapEnd"
  shows "gapEnd - gapStart = diffMinutes gapStart gapEnd * 60000"
proof -
  from assms(1,2) have "60000 dvd gapEnd - gapStart"
    unfolding wholeMinute_dvd by simp
  then obtain k where k: "gapEnd - gapStart = 60000 * k" ..
  then have "(gapEnd - gapStart + 30000) div 60000 = k" by simp
  with assms(3) k show ?thesis by (simp add: diffMinutes_def split: if_splits)
qed

lemma hasConflict_single:
  "hasConflict [b] start end \<longleftrightarrow> ev_startDate b < end \<and> start < ev_endDate b"
  by (auto simp: hasConflict_def rangesOverlap_def)

subsection \<open>The slots carved out of one gap lie inside the gap\<close>

lemma carve_bounds:
  assumes run: "carve config now gapEnd gapStart slots = Some out"
    and pos: "0 < minMinutes config" "0 < maxMinutes config"
    and whole: "wholeMinute gapStart" "wholeMinute gapEnd"
  shows "\<exists>new. out = slots @ new
           \<and> (\<forall>s \<in> set new. gapStart \<le> slot_startDate s \<and> slot_endDate s \<le> gapEnd)"
proof -
  let ?R = "\<lambda>gapStart slots out. wholeMinute gapStart \<longrightarrow>
      (\<exists>new. out = slots @ new
         \<and> (\<forall>s \<in> set new. gapStart \<le> slot_startDate s \<and> slot_endDate s \<le> gapEnd))"
  have "?R gapStart slots out"
  proof (rule carve_induct[where R = ?R, OF run])
    fix gapStart slots
    show "?R gapStart slots slots" by simp
  next
    fix gapStart slots d out
    assume enough: "minMinutes config \<le> diffMinutes gapStart gapEnd"
      and d: "chooseDuration (diffMinutes gapStart gapEnd) config = Some d"
      and rec: "?R (gapStart + d * 60000)
          (if now \<le> gapStart then slots @ [buildSlot gapStart d] else slots) out"
    show "?R gapStart slots out"
    proof
      assume gs: "wholeMinute gapStart"
      from chooseDuration_cases[OF d] pos have dpos: "0 < d"
        and dle: "d \<le> diffMinutes gapStart gapEnd" by auto
      from enough pos have "0 < diffMinutes gapStart gapEnd" by simp
      from diffMinutes_exact[OF gs whole(2) this] dle
      have fits: "gapStart + d * 60000 \<le> gapEnd" by simp
      from gs have "wholeMinute (gapStart + d * 60000)" by (rule wholeMinute_add)
      with rec obtain new where new:
        "out = (if now \<le> gapStart then slots @ [buildSlot gapStart d] else slots) @ new"
        "\<forall>s \<in> set new. gapStart + d * 60000 \<le> slot_startDate s \<and> slot_endDate s \<le> gapEnd"
        by blast
      show "\<exists>new. out = slots @ new
           \<and> (\<forall>s \<in> set new. gapStart \<le> slot_startDate s \<and> slot_endDate s \<le> gapEnd)"
      proof (cases "now \<le> gapStart")
        case True
        with new(1) have "out = slots @ (buildSlot gapStart d # new)" by simp
        moreover from new(2) dpos fits
        have "\<forall>s \<in> set (buildSlot gapStart d # new).
            gapStart \<le> slot_startDate s \<and> slot_endDate s \<le> gapEnd"
          by auto
        ultimately show ?thesis by blast
      next
        case False
        with new(1) have "out = slots @ new" by simp
        moreover from new(2) dpos
        have "\<forall>s \<in> set new. gapStart \<le> slot_startDate s \<and> slot_endDate s \<le> gapEnd"
          by auto
        ultimately show ?thesis by blast
      qed
    qed
  qed
  with whole(1) show ?thesis by simp
qed

subsection \<open>One day's events, sorted by start\<close>

text \<open>
  After the walk over the day's events the cursor is at or after every event's end.
  Each new slot starts at or after the initial cursor, ends at or before the start of
  one of the events, and overlaps none of them.
\<close>

lemma walkEvents_free:
  assumes pos: "0 < minMinutes config" "0 < maxMinutes config"
  shows "sorted (map ev_startDate events)
    \<Longrightarrow> \<forall>e \<in> set events. wholeMinute (ev_startDate e) \<and> wholeMinute (ev_endDate e)
    \<Longrightarrow> wholeMinute cursor
    \<Longrightarrow> walkEvents config now events (cursor, slots) = Some (cursor', out)
    \<Longrightarrow> \<exists>new. out = slots @ new \<and> cursor \<le> cursor' \<and> wholeMinute cursor'
          \<and> (\<forall>e \<in> set events. ev_endDate e \<le> cursor')
          \<and> (\<forall>s \<in> set new. cursor \<le> slot_startDate s
                \<and> (\<exists>e \<in> set events. slot_endDate s \<le> ev_startDate e)
                \<and> (\<forall>e \<in> set events.
                      \<not> hasConflict [e] (slot_startDate s) (slot_endDate s)))"
proof (induction events arbitrary: cursor slots)
  case Nil
  then show ?case by simp
next
  case (Cons event rest)
  let ?cursor1 = "if ev_endDate event > cursor then ev_endDate event else cursor"
  from Cons.prems(4) obtain mid where mid:
    "(if ev_startDate event > cursor then carve config now (ev_startDate event) cursor slots
      else Some slots) = Some mid"
    and walk: "walkEvents config now rest (?cursor1, mid) = Some (cursor', out)"
    by (auto simp: Let_def split: option.splits)
  from Cons.prems(2) have ev: "wholeMinute (ev_startDate event)" "wholeMinute (ev_endDate event)"
    by simp_all
  have "\<exists>new1. mid = slots @ new1
      \<and> (\<forall>s \<in> set new1. cursor \<le> slot_startDate s \<and> slot_endDate s \<le> ev_startDate event)"
  proof (cases "ev_startDate event > cursor")
    case True
    with mid have "carve config now (ev_startDate event) cursor slots = Some mid" by simp
    from carve_bounds[OF this pos Cons.prems(3) ev(1)] show ?thesis .
  next
    case False
    with mid show ?thesis by simp
  qed
  then obtain new1 where new1: "mid = slots @ new1"
    "\<forall>s \<in> set new1. cursor \<le> slot_startDate s \<and> slot_endDate s \<le> ev_startDate event"
    by blast
  from Cons.prems(1) have sorted_rest: "sorted (map ev_startDate rest)"
    and later: "\<forall>r \<in> set rest. ev_startDate event \<le> ev_startDate r"
    by simp_all
  from Cons.prems(2) have whole_rest:
    "\<forall>e \<in> set rest. wholeMinute (ev_startDate e) \<and> wholeMinute (ev_endDate e)"
    by simp
  from ev(2) Cons.prems(3) have whole1: "wholeMinute ?cursor1" by simp
  from Cons.IH[OF sorted_rest whole_rest whole1 walk]
  obtain new2 where new2: "out = mid @ new2" "?cursor1 \<le> cursor'" "wholeMinute cursor'"
    "\<forall>e \<in> set rest. ev_endDate e \<le> cursor'"
    "\<forall>s \<in> set new2. ?cursor1 \<le> slot_startDate s
        \<and> (\<exists>e \<in> set rest. slot_endDate s \<le> ev_startDate e)
        \<and> (\<forall>e \<in> set rest. \<not> hasConflict [e] (slot_startDate s) (slot_endDate s))"
    by blast
  have c1: "cursor \<le> ?cursor1" "ev_endDate event \<le> ?cursor1" by simp_all
  have out: "out = slots @ (new1 @ new2)" using new1(1) new2(1) by simp
  have ends: "\<forall>e \<in> set (event # rest). ev_endDate e \<le> cursor'"
    using new2(2,4) c1(2) by auto
  have first: "cursor \<le> slot_startDate s
      \<and> (\<exists>e \<in> set (event # rest). slot_endDate s \<le> ev_startDate e)
      \<and> (\<forall>e \<in> set (event # rest). \<not> hasConflict [e] (slot_startDate s) (slot_endDate s))"
    if "s \<in> set new1" for s
  proof -
    from that new1(2) have s: "cursor \<le> slot_startDate s" "slot_endDate s \<le> ev_startDate event"
      by simp_all
    from s(2) later have "\<forall>e \<in> set (event # rest). slot_endDate s \<le> ev_startDate e"
      by auto
    then have "\<forall>e \<in> set (event # rest). \<not> hasConflict [e] (slot_startDate s) (slot_endDate s)"
      by (auto simp: hasConflict_single)
    with s show ?thesis by auto
  qed
  have second: "cursor \<le> slot_startDate s
      \<and> (\<exists>e \<in> set (event # rest). slot_endDate s \<le> ev_startDate e)
      \<and> (\<forall>e \<in> set (event # rest). \<not> hasConflict [e] (slot_startDate s) (slot_endDate s))"
    if "s \<in> set new2" for s
  proof -
    from that new2(5) have s: "?cursor1 \<le> slot_startDate s"
      "\<exists>e \<in> set rest. slot_endDate s \<le> ev_startDate e"
      "\<forall>e \<in> set rest. \<not> hasConflict [e] (slot_startDate s) (slot_endDate s)"
      by simp_all
    from s(1) c1 have "cursor \<le> slot_startDate s" "ev_endDate event \<le> slot_startDate s"
      by linarith+
    then have "cursor \<le> slot_startDate s"
      "\<not> hasConflict [event] (slot_startDate s) (slot_endDate s)"
      by (simp_all add: hasConflict_single)
    with s(2,3) show ?thesis by auto
  qed
  from first second have "\<forall>s \<in> set (new1 @ new2). cursor \<le> slot_startDate s
      \<and> (\<exists>e \<in> set (event # rest). slot_endDate s \<le> ev_startDate e)
      \<and> (\<forall>e \<in> set (event # rest). \<not> hasConflict [e] (slot_startDate s) (slot_endDate s))"
    by auto
  moreover from c1(1) new2(2) have "cursor \<le> cursor'" by linarith
  ultimately show ?case using out ends new2(3) by blast
qed

subsection \<open>One day\<close>

text \<open>
  The hypotheses on the busy list: sorted by start, every start and end on a whole
  minute, and no event ending after the midnight that follows its start.
\<close>

lemma scanDay_free:
  assumes pos: "0 < minMinutes config" "0 < maxMinutes config"
    and hours: "0 \<le> dayStartHour config" "dayEndHour config \<le> 24"
    and sorted: "sorted (map ev_startDate busyEvents)"
    and busy: "\<forall>b \<in> set busyEvents. wholeMinute (ev_startDate b) \<and> wholeMinute (ev_endDate b)
                \<and> ev_endDate b \<le> startOfDay tz (ev_startDate b) + 86400000"
    and whole: "wholeMinute now" "wholeMinute tz"
    and run: "scanDay tz config now busyEvents dayOffset slots = Some out"
  shows "\<exists>new. out = slots @ new
           \<and> (\<forall>s \<in> set new. \<forall>b \<in> set busyEvents.
                 \<not> hasConflict [b] (slot_startDate s) (slot_endDate s))"
proof -
  let ?dayStart = "startOfDay tz (addDays now dayOffset)"
  let ?windowStart = "setHour tz ?dayStart (dayStartHour config)"
  let ?windowEnd = "setHour tz ?dayStart (dayEndHour config)"
  let ?cursor = "initialCursor now dayOffset ?windowStart"
  let ?todays = "filter (\<lambda>event. isSameDay tz (ev_startDate event) ?dayStart) busyEvents"
  from run obtain cursor' mid where walk:
    "walkEvents config now ?todays (?cursor, slots) = Some (cursor', mid)"
    and fin: "(if ?windowEnd > cursor' then carve config now ?windowEnd cursor' mid
               else Some mid) = Some out"
    by (auto simp: scanDay_def Let_def split: option.splits)
  have ws: "?windowStart = ?dayStart + dayStartHour config * 3600000"
    and we: "?windowEnd = ?dayStart + dayEndHour config * 3600000"
    by (simp_all add: setHour_def startOfDay_idem)
  from hours have day: "?dayStart \<le> ?windowStart" "?windowEnd \<le> ?dayStart + 86400000"
    unfolding ws we by simp_all
  have cursor_ge: "?dayStart \<le> ?cursor"
    using day(1) by (auto simp: initialCursor_def)
  have cursor_whole: "wholeMinute ?cursor"
  proof -
    have "wholeMinute ?windowStart" using whole(2) by (rule wholeMinute_setHour)
    with whole(1) show ?thesis
      by (cases "dayOffset = 0") (simp_all add: initialCursor_def max_def)
  qed
  have end_whole: "wholeMinute ?windowEnd"
    using whole(2) by (rule wholeMinute_setHour)
  have sorted_todays: "sorted (map ev_startDate ?todays)"
    using sorted by (rule sorted_filter)
  have whole_todays: "\<forall>e \<in> set ?todays. wholeMinute (ev_startDate e) \<and> wholeMinute (ev_endDate e)"
    using busy by simp
  from walkEvents_free[OF pos sorted_todays whole_todays cursor_whole walk]
  obtain new1 where new1: "mid = slots @ new1" "?cursor \<le> cursor'" "wholeMinute cursor'"
    "\<forall>e \<in> set ?todays. ev_endDate e \<le> cursor'"
    "\<forall>s \<in> set new1. ?cursor \<le> slot_startDate s
        \<and> (\<exists>e \<in> set ?todays. slot_endDate s \<le> ev_startDate e)
        \<and> (\<forall>e \<in> set ?todays. \<not> hasConflict [e] (slot_startDate s) (slot_endDate s))"
    by blast
  have "\<exists>new2. out = mid @ new2
      \<and> (\<forall>s \<in> set new2. cursor' \<le> slot_startDate s \<and> slot_endDate s \<le> ?windowEnd)"
  proof (cases "?windowEnd > cursor'")
    case True
    with fin have "carve config now ?windowEnd cursor' mid = Some out" by simp
    from carve_bounds[OF this pos new1(3) end_whole] show ?thesis .
  next
    case False
    with fin show ?thesis by simp
  qed
  then obtain new2 where new2: "out = mid @ new2"
    "\<forall>s \<in> set new2. cursor' \<le> slot_startDate s \<and> slot_endDate s \<le> ?windowEnd"
    by blast
  have in_day: "?dayStart \<le> slot_startDate s \<and> slot_endDate s \<le> ?dayStart + 86400000
      \<and> (\<forall>e \<in> set ?todays. \<not> hasConflict [e] (slot_startDate s) (slot_endDate s))"
    if "s \<in> set (new1 @ new2)" for s
  proof (cases "s \<in> set new1")
    case True
    with new1(5) have s: "?cursor \<le> slot_startDate s"
      "\<forall>e \<in> set ?todays. \<not> hasConflict [e] (slot_startDate s) (slot_endDate s)"
      by simp_all
    from True new1(5) obtain e where e: "e \<in> set ?todays" "slot_endDate s \<le> ev_startDate e"
      by blast
    from e(1) have "startOfDay tz (ev_startDate e) = ?dayStart"
      by (simp add: isSameDay_iff startOfDay_idem)
    with startOfDay_gt[of "ev_startDate e" tz] e(2)
    have "slot_endDate s \<le> ?dayStart + 86400000" by simp
    with s cursor_ge show ?thesis by simp
  next
    case False
    with that new2(2) have s: "cursor' \<le> slot_startDate s" "slot_endDate s \<le> ?windowEnd"
      by simp_all
    from s(1) new1(4) have "\<forall>e \<in> set ?todays. \<not> hasConflict [e] (slot_startDate s) (slot_endDate s)"
      by (auto simp: hasConflict_single)
    moreover from s(1) new1(2) cursor_ge have "?dayStart \<le> slot_startDate s" by linarith
    moreover from s(2) day(2) have "slot_endDate s \<le> ?dayStart + 86400000" by linarith
    ultimately show ?thesis by simp
  qed
  have free: "\<not> hasConflict [b] (slot_startDate s) (slot_endDate s)"
    if s: "s \<in> set (new1 @ new2)" and b: "b \<in> set busyEvents" for s b
  proof (cases "isSameDay tz (ev_startDate b) ?dayStart")
    case True
    with b have "b \<in> set ?todays" by simp
    with in_day[OF s] show ?thesis by blast
  next
    case False
    then have "startOfDay tz (ev_startDate b) \<noteq> ?dayStart"
      by (simp add: isSameDay_iff startOfDay_idem)
    from startOfDay_apart[OF this]
    have "startOfDay tz (ev_startDate b) + 86400000 \<le> ?dayStart
        \<or> ?dayStart + 86400000 \<le> startOfDay tz (ev_startDate b)"
      by (simp add: startOfDay_idem)
    then show ?thesis
    proof
      assume "startOfDay tz (ev_startDate b) + 86400000 \<le> ?dayStart"
      with busy b have "ev_endDate b \<le> ?dayStart" by fastforce
      with in_day[OF s] show ?thesis by (simp add: hasConflict_single)
    next
      assume "?dayStart + 86400000 \<le> startOfDay tz (ev_startDate b)"
      with startOfDay_le[of tz "ev_startDate b"]
      have "?dayStart + 86400000 \<le> ev_startDate b" by linarith
      with in_day[OF s] show ?thesis by (simp add: hasConflict_single)
    qed
  qed
  from new1(1) new2(1) have "out = slots @ (new1 @ new2)" by simp
  with free show ?thesis by blast
qed

lemma scanDays_free:
  assumes pos: "0 < minMinutes config" "0 < maxMinutes config"
    and hours: "0 \<le> dayStartHour config" "dayEndHour config \<le> 24"
    and sorted: "sorted (map ev_startDate busyEvents)"
    and busy: "\<forall>b \<in> set busyEvents. wholeMinute (ev_startDate b) \<and> wholeMinute (ev_endDate b)
                \<and> ev_endDate b \<le> startOfDay tz (ev_startDate b) + 86400000"
    and whole: "wholeMinute now" "wholeMinute tz"
  shows "scanDays tz config now busyEvents offsets slots = Some out
    \<Longrightarrow> \<forall>s \<in> set slots. \<forall>b \<in> set busyEvents.
          \<not> hasConflict [b] (slot_startDate s) (slot_endDate s)
    \<Longrightarrow> \<forall>s \<in> set out. \<forall>b \<in> set busyEvents.
          \<not> hasConflict [b] (slot_startDate s) (slot_endDate s)"
proof (induction offsets arbitrary: slots)
  case Nil
  then show ?case by simp
next
  case (Cons dayOffset offsets)
  from Cons.prems(1) obtain mid where
    day: "scanDay tz config now busyEvents dayOffset slots = Some mid"
    and rest: "scanDays tz config now busyEvents offsets mid = Some out"
    by (auto split: option.splits)
  from scanDay_free[OF pos hours sorted busy whole day] Cons.prems(2)
  have "\<forall>s \<in> set mid. \<forall>b \<in> set busyEvents.
      \<not> hasConflict [b] (slot_startDate s) (slot_endDate s)"
    by auto
  with Cons.IH[OF rest] show ?case by simp
qed

subsection \<open>The claim and its amendment\<close>

text \<open>
  C1, as the specification states it: for every busy list no slot of the result
  overlaps an event of the list. Three busy lists for which a slot does overlap an
  event, each at 07:00 with the window starting at 07:00:
  \<^item> the events 09:00 to 09:30 and 08:00 to 08:30 in this order (the list is walked as
    given, not sorted): the slot 08:00 to 08:30 is the second event;
  \<^item> an event from 23:00 of the day before to 08:00 (an event is looked at only on
    the day it starts): the slot 07:00 to 07:30 lies inside it;
  \<^item> an event from 07:14:30 to 08:00 (the gap of 14.5 minutes is rounded to 15): the
    slot 07:00 to 07:15 overlaps its first 30 seconds.
\<close>

theorem slot_overlaps_event:
  "findFreeSlots \<lparr>clock = 1705302000000, tzOffset = 0\<rparr>
       [\<lparr>ev_startDate = 1705309200000, ev_endDate = 1705311000000\<rparr>,
        \<lparr>ev_startDate = 1705305600000, ev_endDate = 1705307400000\<rparr>]
       \<lparr>days = 1, minMinutes = 30, maxMinutes = 30, dayStartHour = 7, dayEndHour = 10\<rparr>
     = Some [buildSlot 1705302000000 30, buildSlot 1705303800000 30,
             buildSlot 1705305600000 30, buildSlot 1705307400000 30,
             buildSlot 1705311000000 30]
   \<and> hasConflict [\<lparr>ev_startDate = 1705305600000, ev_endDate = 1705307400000\<rparr>]
         (slot_startDate (buildSlot 1705305600000 30))
         (slot_endDate (buildSlot 1705305600000 30))
   \<and> findFreeSlots \<lparr>clock = 1705302000000, tzOffset = 0\<rparr>
       [\<lparr>ev_startDate = 1705273200000, ev_endDate = 1705305600000\<rparr>]
       \<lparr>days = 1, minMinutes = 15, maxMinutes = 30, dayStartHour = 7, dayEndHour = 8\<rparr>
     = Some [buildSlot 1705302000000 30, buildSlot 1705303800000 30]
   \<and> hasConflict [\<lparr>ev_startDate = 1705273200000, ev_endDate = 1705305600000\<rparr>]
         (slot_startDate (buildSlot 1705302000000 30))
         (slot_endDate (buildSlot 1705302000000 30))
   \<and> findFreeSlots \<lparr>clock = 1705302000000, tzOffset = 0\<rparr>
       [\<lparr>ev_startDate = 1705302870000, ev_endDate = 1705305600000\<rparr>]
       \<lparr>days = 1, minMinutes = 15, maxMinutes = 30, dayStartHour = 7, dayEndHour = 8\<rparr>
     = Some [buildSlot 1705302000000 15]
   \<and> hasConflict [\<lparr>ev_startDate = 1705302870000, ev_endDate = 1705305600000\<rparr>]
         (slot_startDate (buildSlot 1705302000000 15))
         (slot_endDate (buildSlot 1705302000000 15))"
  by code_simp

text \<open>
  C1, amended. Let the busy list be sorted by start, with no event ending after the
  midnight that follows its start; let the clock reading, the time zone offset and
  every start and end of an event be on whole minutes; let the durations be positive
  and the window's hours lie within the day (from 0 to 24). Then no slot of the result
  overlaps an event of the busy list.
\<close>

theorem no_overlap:
  assumes run: "findFreeSlots rt busyEvents config = Some out"
    and pos: "0 < minMinutes config" "0 < maxMinutes config"
    and hours: "0 \<le> dayStartHour config" "dayEndHour config \<le> 24"
    and sorted: "sorted (map ev_startDate busyEvents)"
    and busy: "\<forall>b \<in> set busyEvents. wholeMinute (ev_startDate b) \<and> wholeMinute (ev_endDate b)
                \<and> ev_endDate b \<le> startOfDay (tzOffset rt) (ev_startDate b) + 86400000"
    and whole: "wholeMinute (clock rt)" "wholeMinute (tzOffset rt)"
  shows "\<forall>s \<in> set out. \<forall>b \<in> set busyEvents.
           \<not> hasConflict [b] (slot_startDate s) (slot_endDate s)"
proof -
  from run obtain full where full: "scanDays (tzOffset rt) config (clock rt) busyEvents
      (map int [0 ..< nat (days config)]) [] = Some full"
    and out: "out = take 10 full"
    by (auto simp: findFreeSlots_def Let_def)
  from scanDays_free[OF pos hours sorted busy whole full]
  have "\<forall>s \<in> set full. \<forall>b \<in> set busyEvents.
      \<not> hasConflict [b] (slot_startDate s) (slot_endDate s)"
    by simp
  with out show ?thesis by (auto dest: in_set_takeD)
qed

text \<open>
  At 07:00, with the events 08:00 to 08:30 and 09:00 to 09:30, slots of 30 minutes
  and the window 07:00 to 10:00: the slots are 07:00, 07:30, 08:30 and 09:30.
\<close>

theorem no_overlap_witness:
  "findFreeSlots \<lparr>clock = 1705302000000, tzOffset = 0\<rparr>
       [\<lparr>ev_startDate = 1705305600000, ev_endDate = 1705307400000\<rparr>,
        \<lparr>ev_startDate = 1705309200000, ev_endDate = 1705311000000\<rparr>]
       \<lparr>days = 1, minMinutes = 30, maxMinutes = 30, dayStartHour = 7, dayEndHour = 10\<rparr>
     = Some [buildSlot 1705302000000 30, buildSlot 1705303800000 30,
             buildSlot 1705307400000 30, buildSlot 1705311000000 30]
   \<and> list_all (\<lambda>s. list_all (\<lambda>b. \<not> hasConflict [b] (slot_startDate s) (slot_endDate s))
         [\<lparr>ev_startDate = 1705305600000, ev_endDate = 1705307400000\<rparr>,
          \<lparr>ev_startDate = 1705309200000, ev_endDate = 1705311000000\<rparr>])
       [buildSlot 1705302000000 30, buildSlot 1705303800000 30,
        buildSlot 1705307400000 30, buildSlot 1705311000000 30]"
proof -
  let ?rt = "\<lparr>clock = 1705302000000, tzOffset = 0\<rparr>"
  let ?busy = "[\<lparr>ev_startDate = 1705305600000, ev_endDate = 1705307400000\<rparr>,
                \<lparr>ev_startDate = 1705309200000, ev_endDate = 1705311000000\<rparr>]"
  let ?config = "\<lparr>days = 1, minMinutes = 30, maxMinutes = 30, dayStartHour = 7,
                   dayEndHour = 10\<rparr>"
  let ?out = "[buildSlot 1705302000000 30, buildSlot 1705303800000 30,
               buildSlot 1705307400000 30, buildSlot 1705311000000 30]"
  have run: "findFreeSlots ?rt ?busy ?config = Some ?out" by code_simp
  have busy: "\<forall>b \<in> set ?busy. wholeMinute (ev_startDate b) \<and> wholeMinute (ev_endDate b)
      \<and> ev_endDate b \<le> startOfDay (tzOffset ?rt) (ev_startDate b) + 86400000"
    by (simp add: wholeMinute_def startOfDay_def)
  have "\<forall>s \<in> set ?out. \<forall>b \<in> set ?busy.
      \<not> hasConflict [b] (slot_startDate s) (slot_endDate s)"
    by (rule no_overlap[OF run _ _ _ _ _ busy]) (simp_all add: wholeMinute_def)
  then have "list_all (\<lambda>s. list_all (\<lambda>b. \<not> hasConflict [b] (slot_startDate s) (slot_endDate s))
      ?busy) ?out"
    unfolding list_all_iff .
  with run show ?thesis by (rule conjI)
qed

section \<open>The fallback slot\<close>

text \<open>
  C10: when no slot survives the filter and at least 15 minutes are left after now +
  15 minutes, one slot is made up from now + 15 minutes to the end of the day; the
  comment above the code says the same. The code caps the duration at 30 minutes: at
  10:00 with no slot found the made-up slot starts at 10:15 and ends at 10:45, while
  the day ends at 23:59:59.999, 824 whole minutes after 10:15.
\<close>

theorem fallback_not_to_end_of_day:
  "syncFiltered 0 1705312800000 [] = []
   \<and> (endOfToday 0 1705312800000 - minStart 1705312800000) div 60000 = 824
   \<and> syncFallback 0 1705312800000 []
       = [\<lparr>slot_id = ''1705313700000-fallback'', slot_startDate = 1705313700000,
            slot_endDate = 1705315500000, durationMinutes = 30, status = available\<rparr>]
   \<and> endOfToday 0 1705312800000 = 1705363199999"
  by code_simp

text \<open>
  What the code computes in general: the made-up slot starts at now + 15 minutes and
  lasts the whole minutes left in the day, but at most 30.
\<close>

lemma fallback_slot:
  assumes "syncFiltered tz now free = []"
    and "15 \<le> (endOfToday tz now - minStart now) div 60000"
  shows "syncFallback tz now free
           = [\<lparr>slot_id = showInt (now + 900000) @ ''-fallback'',
                slot_startDate = now + 900000,
                slot_endDate = now + 900000
                  + min 30 ((endOfToday tz now - minStart now) div 60000) * 60000,
                durationMinutes = min 30 ((endOfToday tz now - minStart now) div 60000),
                status = available\<rparr>]
         \<and> now + 900000 + min 30 ((endOfToday tz now - minStart now) div 60000) * 60000
             \<le> endOfToday tz now"
proof
  let ?left = "(endOfToday tz now - minStart now) div 60000"
  from assms(2) have "max 0 (min 30 ?left) = min 30 ?left" and "15 \<le> min 30 ?left"
    by simp_all
  with assms(1) show "syncFallback tz now free
           = [\<lparr>slot_id = showInt (now + 900000) @ ''-fallback'',
                slot_startDate = now + 900000,
                slot_endDate = now + 900000 + min 30 ?left * 60000,
                durationMinutes = min 30 ?left,
                status = available\<rparr>]"
    by (simp add: syncFallback_def Let_def minStart_def)
  have "?left * 60000 \<le> endOfToday tz now - minStart now"
    by (simp add: mult.commute[of _ 60000])
  moreover have "min 30 ?left * 60000 \<le> ?left * 60000" by simp
  ultimately show "now + 900000 + min 30 ?left * 60000 \<le> endOfToday tz now"
    by (simp add: minStart_def)
qed

end
